theory Spec2Isabelle
  imports Complex_Main
begin

section \<open>Strings\<close>

text \<open>
  A Python \<open>str\<close> is modelled as a \<open>string\<close> whose characters are the code points
  U+0000 to U+00FF. \<open>isspace\<close> is \<open>str.isspace\<close> on one such code point, \<open>strip\<close> is
  \<open>str.strip()\<close> and \<open>lower\<close> is \<open>str.lower()\<close> on that range.
\<close>

definition isspace :: "char \<Rightarrow> bool" where
  "isspace c = (c \<in> set [CHR 0x09, CHR 0x0A, CHR 0x0B, CHR 0x0C, CHR 0x0D,
                           CHR 0x1C, CHR 0x1D, CHR 0x1E, CHR 0x1F, CHR 0x20,
                           CHR 0x85, CHR 0xA0])"

definition strip :: "string \<Rightarrow> string" where
  "strip s = rev (dropWhile isspace (rev (dropWhile isspace s)))"

definition lower_char :: "char \<Rightarrow> char" where
  "lower_char c =
     (let n = (of_char c :: nat)
      in if (65 \<le> n \<and> n \<le> 90) \<or> (192 \<le> n \<and> n \<le> 222 \<and> n \<noteq> 215)
         then char_of (n + 32) else c)"

definition lower :: "string \<Rightarrow> string" where
  "lower s = map lower_char s"

text \<open>Decimal rendering of a non-negative integer, as \<open>str\<close> and an f-string produce it.\<close>

definition digit_char :: "nat \<Rightarrow> char" where
  "digit_char d = ''0123456789'' ! d"

fun str_nat :: "nat \<Rightarrow> string" where
  "str_nat n = (if n < 10 then [digit_char n] else str_nat (n div 10) @ [digit_char (n mod 10)])"

declare str_nat.simps [simp del]

definition str_int :: "int \<Rightarrow> string" where
  "str_int i = (if i < 0 then CHR ''-'' # str_nat (nat (- i)) else str_nat (nat i))"

section \<open>Floating-point numbers\<close>

text \<open>
  A Python \<open>float\<close> is an IEEE 754 binary64 value, and \<open>time.time()\<close> and the sum
  \<open>time.time() + timeout\<close> are such values. \<open>round_double\<close> is the rounding that float
  arithmetic and the conversion of an integer perform: to the nearest binary64 value, a
  tie going to the value with the even significand (\<open>half_even\<close>). Around a magnitude \<open>a\<close> the binary64 values are
  the multiples of \<open>2 ^ j / 2 ^ 1074\<close>, where \<open>j = rank a\<close> is the least number with
  \<open>a < 2 ^ 53 * 2 ^ j / 2 ^ 1074\<close> and at most 2045; \<open>j = 0\<close> is the subnormal range.
  Infinities are not modelled: a magnitude of \<open>2 ^ 1024 - 2 ^ 970\<close> or more, which
  binary64 rounds to infinity, is rounded to a multiple of \<open>2 ^ 971\<close>. The readings of
  the clock are far below that.
\<close>

definition half_even :: "real \<Rightarrow> int" where
  "half_even y =
     (let f = \<lfloor>y\<rfloor>; r = y - of_int f
      in if r < 1 / 2 then f else if 1 / 2 < r then f + 1 else if even f then f else f + 1)"

definition scale :: real where
  "scale = 2 ^ 1021"

fun level :: "nat \<Rightarrow> nat \<Rightarrow> real \<Rightarrow> nat" where
  "level 0 j a = j"
| "level (Suc n) j a = (if a * scale < 2 ^ j then j else level n (Suc j) a)"

definition rank :: "real \<Rightarrow> nat" where
  "rank a = level 2045 0 a"

definition ulp :: "real \<Rightarrow> real" where
  "ulp x = 2 ^ rank \<bar>x\<bar> / (scale * 2 ^ 53)"

definition round_magnitude :: "real \<Rightarrow> real" where
  "round_magnitude a = ulp a * of_int (half_even (a / ulp a))"

definition round_double :: "real \<Rightarrow> real" where
  "round_double x = sgn x * round_magnitude \<bar>x\<bar>"

section \<open>Errors\<close>

text \<open>
  The exceptions the program raises or catches. \<open>WebDriverException\<close> stands for every
  exception of the browser layer other than the two that the source names separately.
  \<open>ValueError\<close> and \<open>KeyError\<close> carry their message; \<open>OverflowError\<close> is raised by
  the conversion of an integer that is too large for a float.
\<close>

datatype error =
    StaleElementReferenceException
  | WebDriverException
  | TimeoutException
  | ValueError string
  | KeyError string
  | OverflowError

section \<open>Elements and the label extractor\<close>

text \<open>
  A \<open>WebElement\<close> as \<open>extract_label\<close> sees it: every read of the element is a remote
  call that returns a value or raises. \<open>get_attribute\<close> returns a string or \<open>None\<close>;
  \<open>el_id\<close> is the value of Python's \<open>id(element)\<close>.
\<close>

record element =
  el_id :: nat
  el_text :: "error + string"
  el_href :: "error + string option"
  el_data_id :: "error + string option"
  el_tag_name :: "error + string option"

text \<open>Python truthiness of an optional string: \<open>None\<close> and \<open>""\<close> are false.\<close>

fun truthy :: "string option \<Rightarrow> bool" where
  "truthy None = False"
| "truthy (Some s) = (s \<noteq> [])"

definition extract_label :: "element \<Rightarrow> error + string" where
  "extract_label element =
     (case el_text element of
        Inl err \<Rightarrow> Inl err
      | Inr raw_text \<Rightarrow>
          let text = strip raw_text in
          if text \<noteq> [] then Inr text
          else (case el_href element of
                  Inl err \<Rightarrow> Inl err
                | Inr href \<Rightarrow>
                    if truthy href then Inr (the href)
                    else (case el_data_id element of
                            Inl err \<Rightarrow> Inl err
                          | Inr data_id \<Rightarrow>
                              if truthy data_id then Inr (the data_id)
                              else (case el_tag_name element of
                                      Inl err \<Rightarrow> Inl err
                                    | Inr tag \<Rightarrow>
                                        let tag_name = (if truthy tag then the tag else ''link'')
                                        in Inr (tag_name @ ''-'' @ str_nat (el_id element))))))"

section \<open>The link selector\<close>

text \<open>
  The first loop of \<open>pick_next_link\<close>: a candidate whose extraction raises
  \<open>StaleElementReferenceException\<close> is skipped; any other exception leaves the function.
\<close>

fun collect_available :: "element list \<Rightarrow> error + (element \<times> string) list" where
  "collect_available [] = Inr []"
| "collect_available (element # rest) =
     (case extract_label element of
        Inl StaleElementReferenceException \<Rightarrow> collect_available rest
      | Inl err \<Rightarrow> Inl err
      | Inr label \<Rightarrow>
          (case collect_available rest of
             Inl err \<Rightarrow> Inl err
           | Inr available \<Rightarrow> Inr ((element, label) # available)))"

text \<open>
  The loop over \<open>target_texts\<close>: a visited target is skipped; for an unvisited one the
  inner loop returns the first pair with that label, and when the inner loop ends without
  a return the outer loop goes on to the next target.
\<close>

fun scan_targets ::
  "string list \<Rightarrow> string set \<Rightarrow> (element \<times> string) list \<Rightarrow> (element \<times> string) option" where
  "scan_targets [] visited_labels available = None"
| "scan_targets (target # rest) visited_labels available =
     (if target \<in> visited_labels then scan_targets rest visited_labels available
      else (case find (\<lambda>(element, label). label = target) available of
              Some found \<Rightarrow> Some found
            | None \<Rightarrow> scan_targets rest visited_labels available))"

text \<open>\<open>target_texts\<close> is \<open>None\<close> or a list; \<open>if target_texts:\<close> holds for a non-empty list.\<close>

definition pick_next_link ::
  "element list \<Rightarrow> string set \<Rightarrow> string list option \<Rightarrow> error + (element \<times> string) option" where
  "pick_next_link candidates visited_labels target_texts =
     (case collect_available candidates of
        Inl err \<Rightarrow> Inl err
      | Inr available \<Rightarrow>
          if available = [] then Inr None
          else (case target_texts of
                  Some (t # ts) \<Rightarrow> Inr (scan_targets (t # ts) visited_labels available)
                | _ \<Rightarrow> Inr (find (\<lambda>(element, label). label \<notin> visited_labels) available)))"

section \<open>The browser session\<close>

text \<open>
  The values of Selenium's \<open>By\<close> that \<open>map_by\<close> can return.
\<close>

datatype By =
    CSS_SELECTOR | XPATH | ID | NAME | CLASS_NAME | TAG_NAME | LINK_TEXT | PARTIAL_LINK_TEXT

text \<open>
  What the program does to the outside, in the order it does it. An action is recorded
  when it is attempted, whether or not it raises.
\<close>

datatype action =
    Get string
  | WaitPageReady real
  | FindElements string
  | ScrollIntoView element
  | Click element
  | ScriptClick element
  | WaitClickable By string real
  | Sleep real
  | Glob
  | Back

text \<open>
  The world is the time and the actions so far. The clock is ideal: only \<open>time.sleep\<close>
  advances it, by exactly its argument. What \<open>time.time()\<close> returns is the clock rounded
  to a float (\<open>time_time\<close>, with the download waiter).
\<close>

record world =
  clock :: real
  trace :: "action list"

definition record_action :: "action \<Rightarrow> world \<Rightarrow> world" where
  "record_action a w = w\<lparr>trace := trace w @ [a]\<rparr>"

definition sleep :: "real \<Rightarrow> world \<Rightarrow> world" where
  "sleep seconds w = w\<lparr>clock := clock w + seconds, trace := trace w @ [Sleep seconds]\<rparr>"

text \<open>
  The browser answers each call with a value or an exception; the answer may depend on
  everything that happened before (the world at the time of the call).
  \<open>until_find_elements\<close> and \<open>until_clickable\<close> and \<open>until_ready\<close> are the outcomes of
  the whole \<open>WebDriverWait(...).until(...)\<close> call.
\<close>

record browser =
  get_page :: "world \<Rightarrow> string \<Rightarrow> error option"
  until_ready :: "world \<Rightarrow> real \<Rightarrow> error option"
  until_find_elements :: "world \<Rightarrow> string \<Rightarrow> error + element list"
  execute_scroll :: "world \<Rightarrow> element \<Rightarrow> error option"
  element_click :: "world \<Rightarrow> element \<Rightarrow> error option"
  execute_click :: "world \<Rightarrow> element \<Rightarrow> error option"
  until_clickable :: "world \<Rightarrow> By \<times> string \<Rightarrow> real \<Rightarrow> error + element"
  go_back :: "world \<Rightarrow> error option"

definition wait_for_page_ready :: "browser \<Rightarrow> world \<Rightarrow> real \<Rightarrow> (error + unit) \<times> world" where
  "wait_for_page_ready driver w timeout =
     (case until_ready driver w timeout of
        Some err \<Rightarrow> (Inl err, record_action (WaitPageReady timeout) w)
      | None \<Rightarrow> (Inr (), record_action (WaitPageReady timeout) w))"

text \<open>
  \<open>until\<close> returns the first truthy value of its condition, so an empty list of elements
  is never returned: the wait ends in \<open>TimeoutException\<close> instead.
\<close>

definition collect_link_elements ::
  "browser \<Rightarrow> world \<Rightarrow> string \<Rightarrow> (error + element list) \<times> world" where
  "collect_link_elements driver w selector =
     (case until_find_elements driver w selector of
        Inl err \<Rightarrow> (Inl err, record_action (FindElements selector) w)
      | Inr [] \<Rightarrow> (Inl TimeoutException, record_action (FindElements selector) w)
      | Inr elements \<Rightarrow> (Inr elements, record_action (FindElements selector) w))"

section \<open>The click executor\<close>

text \<open>
  \<open>except (WebDriverException, Exception)\<close> catches every value of \<open>error\<close> (an
  interrupt of the process, which is not an \<open>Exception\<close>, is outside the model); the
  handler runs the script click, whose exception, if any, is the one that leaves the
  function. The scroll is outside the \<open>try\<close>.
\<close>

definition click_element ::
  "browser \<Rightarrow> world \<Rightarrow> element \<Rightarrow> string \<Rightarrow> (error + unit) \<times> world" where
  "click_element driver w element label =
     (let w1 = record_action (ScrollIntoView element) w in
      case execute_scroll driver w element of
        Some err \<Rightarrow> (Inl err, w1)
      | None \<Rightarrow>
          let w2 = record_action (Click element) w1 in
          (case element_click driver w1 element of
             None \<Rightarrow> (Inr (), w2)
           | Some caught \<Rightarrow>
               let w3 = record_action (ScriptClick element) w2 in
               (case execute_click driver w2 element of
                  None \<Rightarrow> (Inr (), w3)
                | Some err \<Rightarrow> (Inl err, w3))))"

section \<open>The export trigger\<close>

definition mapping :: "(string \<times> By) list" where
  "mapping =
     [(''css'', CSS_SELECTOR),
      (''css_selector'', CSS_SELECTOR),
      (''xpath'', XPATH),
      (''id'', ID),
      (''name'', NAME),
      (''class'', CLASS_NAME),
      (''class_name'', CLASS_NAME),
      (''tag'', TAG_NAME),
      (''tag_name'', TAG_NAME),
      (''link_text'', LINK_TEXT),
      (''partial_link_text'', PARTIAL_LINK_TEXT)]"

definition map_by :: "string \<Rightarrow> error + By" where
  "map_by by_value =
     (case map_of mapping by_value of
        None \<Rightarrow> Inl (ValueError (''Unsupported locator type: '' @ by_value))
      | Some kind \<Rightarrow> Inr kind)"

text \<open>
  \<open>locator_config\<close> is a dictionary of strings. The key \<open>by\<close> defaults to \<open>css\<close>; a missing
  key \<open>value\<close> raises \<open>KeyError\<close> before \<open>map_by\<close> is called.
\<close>

definition trigger_export ::
  "browser \<Rightarrow> world \<Rightarrow> (string \<rightharpoonup> string) \<Rightarrow> real \<Rightarrow> string \<Rightarrow> (error + unit) \<times> world" where
  "trigger_export driver w locator_config timeout link_label =
     (let by = lower (case locator_config ''by'' of None \<Rightarrow> ''css'' | Some b \<Rightarrow> b) in
      case locator_config ''value'' of
        None \<Rightarrow> (Inl (KeyError ''value''), w)
      | Some val \<Rightarrow>
          (case map_by by of
             Inl err \<Rightarrow> (Inl err, w)
           | Inr kind \<Rightarrow>
               let w1 = record_action (WaitClickable kind val timeout) w in
               (case until_clickable driver w (kind, val) timeout of
                  Inl err \<Rightarrow> (Inl err, w1)
                | Inr button \<Rightarrow>
                    let w2 = record_action (Click button) w1 in
                    (case element_click driver w1 button of
                       Some err \<Rightarrow> (Inl err, w2)
                     | None \<Rightarrow> (Inr (), w2)))))"

section \<open>The download waiter\<close>

text \<open>
  The download directory is the list of its file names at each moment.
  \<open>target_dir.glob("*.crdownload")\<close> yields the names that end in \<open>.crdownload\<close>.
\<close>

type_synonym directory = "real \<Rightarrow> string list"

definition endswith :: "string \<Rightarrow> string \<Rightarrow> bool" where
  "endswith s suffix = (length suffix \<le> length s \<and> drop (length s - length suffix) s = suffix)"

definition glob_crdownload :: "string list \<Rightarrow> string list" where
  "glob_crdownload names = filter (\<lambda>name. endswith name ''.crdownload'') names"

definition pending :: "directory \<Rightarrow> real \<Rightarrow> bool" where
  "pending target_dir t = (glob_crdownload (target_dir t) \<noteq> [])"

text \<open>\<open>time.time()\<close> returns the clock as a float.\<close>

definition time_time :: "world \<Rightarrow> real" where
  "time_time w = round_double (clock w)"

text \<open>
  The loop of lines 273 to 276. It ends for every deadline, because each pass sleeps one
  second and the readings of the clock grow with it; the proof of that follows the
  properties of \<open>round_double\<close>.
\<close>

function wait_loop :: "directory \<Rightarrow> real \<Rightarrow> world \<Rightarrow> (error + unit) \<times> world" where
  "wait_loop target_dir deadline w =
     (if time_time w < deadline then
        (if \<not> pending target_dir (clock w) then (Inr (), record_action Glob w)
         else wait_loop target_dir deadline (sleep 1 (record_action Glob w)))
      else (Inl TimeoutException, w))"
  by pat_completeness auto

text \<open>
  Line 271. \<open>timeout\<close> is a finite Python number, a float or an integer (the values
  \<open>Infinity\<close> and \<open>NaN\<close> are outside the model). The sum is a float addition: an
  integer is converted to a float first, which raises \<open>OverflowError\<close> when it is too
  large (its magnitude rounds to \<open>2 ^ 1024\<close>; no float is that large), and the sum of the
  two floats is rounded. With a reading of the clock below \<open>2 ^ 970\<close> in magnitude the sum
  stays in the range of the floats.
\<close>

definition deadline :: "world \<Rightarrow> real \<Rightarrow> real" where
  "deadline w timeout = round_double (time_time w + round_double timeout)"

definition wait_for_downloads :: "directory \<Rightarrow> real \<Rightarrow> world \<Rightarrow> (error + unit) \<times> world" where
  "wait_for_downloads target_dir timeout w =
     (if 2 ^ 1024 - 2 ^ 970 \<le> \<bar>timeout\<bar> then (Inl OverflowError, w)
      else wait_loop target_dir (deadline w timeout) w)"

section \<open>Configuration\<close>

text \<open>
  An entry of the configured target list is a JSON scalar; \<open>str\<close> is Python's \<open>str(item)\<close>
  on it (floating-point numbers and nested values are left out).
\<close>

datatype json = JString string | JInt int | JBool bool | JNull

fun str :: "json \<Rightarrow> string" where
  "str (JString s) = s"
| "str (JInt i) = str_int i"
| "str (JBool b) = (if b then ''True'' else ''False'')"
| "str JNull = ''None''"

text \<open>\<open>if not raw\<close> holds for \<open>None\<close> and for the empty list; so does \<open>cleaned or None\<close>.\<close>

definition normalize_target_texts :: "json list option \<Rightarrow> string list option" where
  "normalize_target_texts raw =
     (case raw of
        None \<Rightarrow> None
      | Some [] \<Rightarrow> None
      | Some items \<Rightarrow>
          let cleaned = map (\<lambda>item. strip (str item)) (filter (\<lambda>item. strip (str item) \<noteq> []) items)
          in if cleaned = [] then None else Some cleaned)"

text \<open>
  The configuration dictionary after \<open>load_config\<close> has checked the three required keys;
  an optional key is \<open>None\<close> when absent and \<open>get_or\<close> is \<open>config.get(key, fallback)\<close>.
\<close>

record config =
  start_url :: string
  link_items_selector :: string
  export_button :: "string \<rightharpoonup> string"
  link_text_targets :: "json list option"
  page_ready_timeout :: "real option"
  wait_after_link_seconds :: "real option"
  export_click_timeout_seconds :: "real option"
  navigate_back_after_export :: "bool option"
  download_wait_timeout_seconds :: "real option"

definition DEFAULT_TIMEOUT :: real where
  "DEFAULT_TIMEOUT = 30"

definition get_or :: "'a option \<Rightarrow> 'a \<Rightarrow> 'a" where
  "get_or v fallback = (case v of None \<Rightarrow> fallback | Some x \<Rightarrow> x)"

section \<open>The traversal loop\<close>

text \<open>
  One pass of the \<open>while True\<close> loop of \<open>run_automation\<close> either goes on to the next pass
  (\<open>Running\<close>), leaves the loop by \<open>break\<close> (\<open>Complete\<close>) or leaves the function by an
  exception (\<open>Fatal\<close>). The loop's state is \<open>visited_labels\<close> and the world; the counter
  \<open>iteration\<close> is only printed and is left out, as are all \<open>print\<close> calls.
\<close>

datatype outcome = Running | Complete | Fatal error

text \<open>Lines 104 and 105: the download waiter is called only for a positive wait.\<close>

definition download_step :: "directory \<Rightarrow> real \<Rightarrow> world \<Rightarrow> (error + unit) \<times> world" where
  "download_step download_dir download_wait w =
     (if download_wait > 0 then wait_for_downloads download_dir download_wait w else (Inr (), w))"

text \<open>Lines 98 to 110: what follows \<open>visited_labels.add(label)\<close> in a pass.\<close>

definition finish_link ::
  "browser \<Rightarrow> directory \<Rightarrow> config \<Rightarrow> string \<Rightarrow> world \<Rightarrow> outcome \<times> world" where
  "finish_link driver download_dir config label w =
     (let wait_after_link = get_or (wait_after_link_seconds config) 10;
          export_timeout = get_or (export_click_timeout_seconds config) DEFAULT_TIMEOUT;
          back_after_export = get_or (navigate_back_after_export config) False;
          download_wait = get_or (download_wait_timeout_seconds config) 60;
          w1 = (if wait_after_link > 0 then sleep wait_after_link w else w)
      in case trigger_export driver w1 (export_button config) export_timeout label of
           (Inl err, w2) \<Rightarrow> (Fatal err, w2)
         | (Inr done, w2) \<Rightarrow>
             (case download_step download_dir download_wait w2 of
                (Inl err, w3) \<Rightarrow> (Fatal err, w3)
              | (Inr settled, w3) \<Rightarrow>
                  if back_after_export then
                    (case go_back driver w3 of
                       Some err \<Rightarrow> (Fatal err, record_action Back w3)
                     | None \<Rightarrow>
                         (case wait_for_page_ready driver (record_action Back w3)
                                 (get_or (page_ready_timeout config) DEFAULT_TIMEOUT) of
                            (Inl err, w5) \<Rightarrow> (Fatal err, w5)
                          | (Inr ready, w5) \<Rightarrow> (Running, w5)))
                  else (Running, w3)))"

text \<open>Lines 83 to 96, followed by \<open>finish_link\<close> with the label already added.\<close>

definition loop_body ::
  "browser \<Rightarrow> directory \<Rightarrow> config \<Rightarrow> string list option \<Rightarrow> string set \<times> world
     \<Rightarrow> outcome \<times> string set \<times> world" where
  "loop_body driver download_dir config target_texts state =
     (case state of (visited_labels, w) \<Rightarrow>
        (case collect_link_elements driver w (link_items_selector config) of
           (Inl err, w1) \<Rightarrow> (Fatal err, visited_labels, w1)
         | (Inr link_elements, w1) \<Rightarrow>
             (case pick_next_link link_elements visited_labels target_texts of
                Inl err \<Rightarrow> (Fatal err, visited_labels, w1)
              | Inr None \<Rightarrow> (Complete, visited_labels, w1)
              | Inr (Some (element, label)) \<Rightarrow>
                  (case click_element driver w1 element label of
                     (Inl err, w2) \<Rightarrow> (Fatal err, visited_labels, w2)
                   | (Inr clicked, w2) \<Rightarrow>
                       (case finish_link driver download_dir config label w2 of
                          (out, w3) \<Rightarrow> (out, insert label visited_labels, w3))))))"

text \<open>
  The loop has no bound of its own, so the model runs it for at most \<open>fuel\<close> passes;
  \<open>Running\<close> is returned when the passes are used up.
\<close>

fun run_loop ::
  "nat \<Rightarrow> browser \<Rightarrow> directory \<Rightarrow> config \<Rightarrow> string list option \<Rightarrow> string set \<times> world
     \<Rightarrow> outcome \<times> string set \<times> world" where
  "run_loop 0 driver download_dir config target_texts state = (Running, state)"
| "run_loop (Suc fuel) driver download_dir config target_texts state =
     (case loop_body driver download_dir config target_texts state of
        (Running, state') \<Rightarrow> run_loop fuel driver download_dir config target_texts state'
      | stopped \<Rightarrow> stopped)"

definition run_automation ::
  "nat \<Rightarrow> browser \<Rightarrow> directory \<Rightarrow> config \<Rightarrow> world \<Rightarrow> outcome \<times> string set \<times> world" where
  "run_automation fuel driver download_dir config w =
     (let target_texts = normalize_target_texts (link_text_targets config);
          page_timeout = get_or (page_ready_timeout config) DEFAULT_TIMEOUT
      in case get_page driver w (start_url config) of
           Some err \<Rightarrow> (Fatal err, {}, record_action (Get (start_url config)) w)
         | None \<Rightarrow>
             (case wait_for_page_ready driver (record_action (Get (start_url config)) w) page_timeout of
                (Inl err, w2) \<Rightarrow> (Fatal err, {}, w2)
              | (Inr ready, w2) \<Rightarrow>
                  run_loop fuel driver download_dir config target_texts ({}, w2)))"

section \<open>Notions of the specification\<close>

text \<open>An element that renders the visible text \<open>t\<close> and nothing else.\<close>

definition text_link :: "nat \<Rightarrow> string \<Rightarrow> element" where
  "text_link i t = \<lparr>el_id = i, el_text = Inr t, el_href = Inr None, el_data_id = Inr None,
                    el_tag_name = Inr (Some ''a'')\<rparr>"

text \<open>The candidates with their labels, those whose extraction fails being dropped.\<close>

definition labelled :: "element list \<Rightarrow> (element \<times> string) list" where
  "labelled candidates =
     List.map_filter (\<lambda>element. case extract_label element of
                                   Inr label \<Rightarrow> Some (element, label)
                                 | Inl err \<Rightarrow> None) candidates"

text \<open>Extraction fails on a candidate only because the element has gone stale.\<close>

definition stale_only :: "element list \<Rightarrow> bool" where
  "stale_only candidates =
     list_all (\<lambda>element. case extract_label element of
                           Inl err \<Rightarrow> err = StaleElementReferenceException
                         | Inr label \<Rightarrow> True) candidates"

text \<open>
  The fallback chain of the label extractor: the four signals in order, each read only
  when the ones before it are empty, and the first non-empty one wins.
\<close>

fun opt_str :: "string option \<Rightarrow> string" where
  "opt_str None = []"
| "opt_str (Some s) = s"

fun first_nonempty :: "(error + string) list \<Rightarrow> error + string" where
  "first_nonempty [] = Inr []"
| "first_nonempty (Inl err # rest) = Inl err"
| "first_nonempty (Inr s # rest) = (if s \<noteq> [] then Inr s else first_nonempty rest)"

definition synthesized :: "nat \<Rightarrow> string option \<Rightarrow> string" where
  "synthesized token tag = (if truthy tag then the tag else ''link'') @ ''-'' @ str_nat token"

definition label_chain :: "element \<Rightarrow> (error + string) list" where
  "label_chain element =
     [map_sum id strip (el_text element),
      map_sum id opt_str (el_href element),
      map_sum id opt_str (el_data_id element),
      map_sum id (synthesized (el_id element)) (el_tag_name element)]"

text \<open>The spellings of a locator kind that \<open>map_by\<close> knows.\<close>

definition locator_spellings :: "string list" where
  "locator_spellings =
     [''css'', ''css_selector'', ''xpath'', ''id'', ''name'', ''class'', ''class_name'',
      ''tag'', ''tag_name'', ''link_text'', ''partial_link_text'']"

text \<open>A string that is empty or consists of whitespace only.\<close>

definition blank :: "string \<Rightarrow> bool" where
  "blank s = list_all isspace s"


text \<open>
  A session for the examples: the page always lists \<open>links\<close>, every scroll and click
  succeeds, and the wait for the export control ends as \<open>button\<close> says.
\<close>

definition stub_browser :: "element list \<Rightarrow> error + element \<Rightarrow> browser" where
  "stub_browser links button =
     \<lparr>get_page = (\<lambda>w url. None),
      until_ready = (\<lambda>w timeout. None),
      until_find_elements = (\<lambda>w selector. Inr links),
      execute_scroll = (\<lambda>w element. None),
      element_click = (\<lambda>w element. None),
      execute_click = (\<lambda>w element. None),
      until_clickable = (\<lambda>w locator timeout. button),
      go_back = (\<lambda>w. None)\<rparr>"

definition plain_config :: config where
  "plain_config =
     \<lparr>start_url = ''http://example.test/'',
      link_items_selector = ''a.item'',
      export_button = [''by'' \<mapsto> ''css'', ''value'' \<mapsto> ''#export''],
      link_text_targets = None,
      page_ready_timeout = None,
      wait_after_link_seconds = Some 0,
      export_click_timeout_seconds = None,
      navigate_back_after_export = None,
      download_wait_timeout_seconds = Some 0\<rparr>"

section \<open>Properties of the label extractor\<close>

lemma truthy_the: "truthy x \<Longrightarrow> the x \<noteq> []"
  by (cases x) auto

lemma extract_label_chain: "extract_label element = first_nonempty (label_chain element)"
  by (cases "el_text element"; cases "el_href element"; cases "el_data_id element";
      cases "el_tag_name element")
     (auto simp: extract_label_def label_chain_def synthesized_def Let_def
           split: option.splits elim: truthy.elims)

lemma extract_label_nonempty: "extract_label element = Inr label \<Longrightarrow> label \<noteq> []"
  by (auto simp: extract_label_def Let_def truthy_the split: sum.splits if_splits option.splits)

text \<open>
  Claim C4. The label extractor returns the first non-empty value of the chain: trimmed
  visible text, then the href attribute, then the data-id attribute, then the tag name
  joined to the element's identity token. A label it returns is never empty, and it
  returns one whenever the four reads of the element succeed. An element with empty text
  and href \<open>/item/7\<close> yields \<open>/item/7\<close>; an element with text \<open>Report Q1\<close> yields
  \<open>Report Q1\<close> whatever its href.
\<close>

theorem extract_label_fallback_chain:
  "extract_label element = first_nonempty (label_chain element)
   \<and> (\<forall>label. extract_label element = Inr label \<longrightarrow> label \<noteq> [])
   \<and> ((\<exists>t h d g. el_text element = Inr t \<and> el_href element = Inr h
                 \<and> el_data_id element = Inr d \<and> el_tag_name element = Inr g)
        \<longrightarrow> (\<exists>label. extract_label element = Inr label))
   \<and> (el_text element = Inr [] \<and> el_href element = Inr (Some ''/item/7'')
        \<longrightarrow> extract_label element = Inr ''/item/7'')
   \<and> (el_text element = Inr ''Report Q1'' \<longrightarrow> extract_label element = Inr ''Report Q1'')"
proof -
  have total: "(\<exists>t h d g. el_text element = Inr t \<and> el_href element = Inr h
                 \<and> el_data_id element = Inr d \<and> el_tag_name element = Inr g)
        \<longrightarrow> (\<exists>label. extract_label element = Inr label)"
    by (auto simp: extract_label_def Let_def)
  have ex1: "el_text element = Inr [] \<and> el_href element = Inr (Some ''/item/7'')
        \<longrightarrow> extract_label element = Inr ''/item/7''"
    by (simp add: extract_label_def strip_def)
  have ex2: "el_text element = Inr ''Report Q1'' \<longrightarrow> extract_label element = Inr ''Report Q1''"
    by (simp add: extract_label_def strip_def isspace_def)
  from extract_label_chain extract_label_nonempty total ex1 ex2 show ?thesis by blast
qed

theorem extract_label_fallback_chain_witness:
  "extract_label \<lparr>el_id = 7, el_text = Inr ''  '', el_href = Inr (Some []),
                   el_data_id = Inr None, el_tag_name = Inr (Some ''a'')\<rparr> = Inr ''a-7''
   \<and> ''a-7'' \<noteq> []
   \<and> extract_label \<lparr>el_id = 1, el_text = Inr [], el_href = Inr (Some ''/item/7''),
                   el_data_id = Inl WebDriverException, el_tag_name = Inr None\<rparr> = Inr ''/item/7''
   \<and> extract_label \<lparr>el_id = 2, el_text = Inr ''Report Q1'', el_href = Inr (Some ''/item/8''),
                   el_data_id = Inr None, el_tag_name = Inr None\<rparr> = Inr ''Report Q1''"
  using extract_label_fallback_chain [of "\<lparr>el_id = 7, el_text = Inr ''  '', el_href = Inr (Some []),
                   el_data_id = Inr None, el_tag_name = Inr (Some ''a'')\<rparr>"]
        extract_label_fallback_chain [of "\<lparr>el_id = 1, el_text = Inr [], el_href = Inr (Some ''/item/7''),
                   el_data_id = Inl WebDriverException, el_tag_name = Inr None\<rparr>"]
        extract_label_fallback_chain [of "\<lparr>el_id = 2, el_text = Inr ''Report Q1'', el_href = Inr (Some ''/item/8''),
                   el_data_id = Inr None, el_tag_name = Inr None\<rparr>"]
  by (simp add: label_chain_def synthesized_def strip_def isspace_def str_nat.simps digit_char_def)

section \<open>Properties of the link selector\<close>

lemma find_Some_set: "find P xs = Some x \<Longrightarrow> P x \<and> x \<in> set xs"
  by (induction xs) (auto split: if_splits)

lemma collect_available_labelled:
  "stale_only candidates \<Longrightarrow> collect_available candidates = Inr (labelled candidates)"
  by (induction candidates)
     (auto simp: stale_only_def labelled_def split: sum.splits error.splits)

lemma collect_available_sound:
  "collect_available candidates = Inr available \<Longrightarrow> (element, label) \<in> set available \<Longrightarrow>
     element \<in> set candidates \<and> extract_label element = Inr label"
  by (induction candidates arbitrary: available)
     (auto split: sum.splits error.splits)

lemma scan_targets_filter:
  "scan_targets targets visited available =
     (case filter (\<lambda>t. t \<notin> visited \<and> t \<in> snd ` set available) targets of
        [] \<Rightarrow> None
      | t # _ \<Rightarrow> find (\<lambda>(element, label). label = t) available)"
proof (induction targets)
  case Nil
  then show ?case by simp
next
  case (Cons t ts)
  show ?case
  proof (cases "t \<in> visited")
    case True
    with Cons show ?thesis by simp
  next
    case False
    show ?thesis
    proof (cases "find (\<lambda>(element, label). label = t) available")
      case None
      then have "t \<notin> snd ` set available"
        by (auto simp: find_None_iff)
      with None False Cons show ?thesis by simp
    next
      case (Some found)
      then have "t \<in> snd ` set available"
        by (force dest: find_Some_set)
      with Some False show ?thesis by simp
    qed
  qed
qed

lemma scan_targets_sound:
  "scan_targets targets visited available = Some (element, label) \<Longrightarrow>
     label \<notin> visited \<and> label \<in> set targets \<and> (element, label) \<in> set available"
proof (induction targets)
  case Nil
  then show ?case by simp
next
  case (Cons t ts)
  show ?case
  proof (cases "t \<in> visited")
    case True
    with Cons show ?thesis by auto
  next
    case False
    show ?thesis
    proof (cases "find (\<lambda>(element, label). label = t) available")
      case None
      with False Cons show ?thesis by auto
    next
      case (Some found)
      with False Cons.prems
      have "find (\<lambda>(element, label). label = t) available = Some (element, label)"
        by simp
      then have "label = t \<and> (element, label) \<in> set available"
        by (auto dest: find_Some_set)
      with False show ?thesis by auto
    qed
  qed
qed

lemma find_unvisited_sound:
  "find (\<lambda>(element, label). label \<notin> visited) available = Some (element, label) \<Longrightarrow>
     label \<notin> visited \<and> (element, label) \<in> set available"
  by (auto dest: find_Some_set)

text \<open>
  Claim C1, as amended. With a non-empty target list, the selector returns the first
  candidate (in discovery order) whose label is the first target that is both unvisited
  and carried by some candidate: an unvisited target with no matching candidate is passed
  over and the scan goes on to the later targets. It returns "none remain" exactly when no
  unvisited target is carried by a candidate, and never a candidate outside the targets.
\<close>

theorem pick_next_link_targets:
  assumes "stale_only candidates" and "targets \<noteq> []"
  shows "pick_next_link candidates visited (Some targets) =
           Inr (case filter (\<lambda>t. t \<notin> visited \<and> t \<in> snd ` set (labelled candidates)) targets of
                  [] \<Rightarrow> None
                | t # _ \<Rightarrow> find (\<lambda>(element, label). label = t) (labelled candidates))"
proof -
  have av: "collect_available candidates = Inr (labelled candidates)"
    using assms(1) by (rule collect_available_labelled)
  obtain t ts where ts: "targets = t # ts"
    using assms(2) by (cases targets) auto
  show ?thesis
  proof (cases "labelled candidates = []")
    case True
    then show ?thesis
      by (simp add: pick_next_link_def av)
  next
    case False
    have "pick_next_link candidates visited (Some targets) =
            Inr (scan_targets targets visited (labelled candidates))"
      using False by (simp add: pick_next_link_def av ts)
    then show ?thesis
      by (simp only: scan_targets_filter)
  qed
qed

theorem pick_next_link_targets_witness:
  "stale_only [text_link 2 ''B'', text_link 3 ''C''] \<and> [''A'', ''B'', ''C''] \<noteq> []
   \<and> pick_next_link [text_link 2 ''B'', text_link 3 ''C''] {} (Some [''A'', ''B'', ''C''])
       = Inr (Some (text_link 2 ''B'', ''B''))"
  using pick_next_link_targets [of "[text_link 2 ''B'', text_link 3 ''C'']" "[''A'', ''B'', ''C'']" "{}"]
  by (simp add: stale_only_def labelled_def extract_label_def text_link_def strip_def isspace_def)

text \<open>
  The claim as the specification states it fails: with targets \<open>A, B, C\<close>, candidates
  labelled \<open>B\<close> and \<open>C\<close> and nothing visited, the selector returns the candidate \<open>B\<close>.
\<close>

theorem pick_next_link_skips_missing_target:
  "pick_next_link [text_link 2 ''B'', text_link 3 ''C''] {} (Some [''A'', ''B'', ''C''])
     = Inr (Some (text_link 2 ''B'', ''B''))
   \<and> pick_next_link [text_link 2 ''B'', text_link 3 ''C''] {} (Some [''A'', ''B'', ''C''])
     \<noteq> Inr None"
  by (simp add: pick_next_link_def extract_label_def text_link_def strip_def isspace_def)

text \<open>
  Claim C2. A pair that the selector returns has a label outside the visited set, and,
  when a non-empty target list is given, a label of that list; the returned element is
  one of the candidates and the label is the one extracted from it.
\<close>

theorem pick_next_link_sound:
  assumes "pick_next_link candidates visited target_texts = Inr (Some (element, label))"
  shows "label \<notin> visited
         \<and> (\<forall>targets. target_texts = Some targets \<and> targets \<noteq> [] \<longrightarrow> label \<in> set targets)
         \<and> element \<in> set candidates \<and> extract_label element = Inr label"
proof -
  from assms obtain available where av: "collect_available candidates = Inr available"
    by (auto simp: pick_next_link_def split: sum.splits)
  show ?thesis
  proof (cases "\<exists>t ts. target_texts = Some (t # ts)")
    case True
    then obtain t ts where ts: "target_texts = Some (t # ts)" by blast
    with assms av have "scan_targets (t # ts) visited available = Some (element, label)"
      by (simp add: pick_next_link_def split: if_splits)
    then have "label \<notin> visited \<and> label \<in> set (t # ts) \<and> (element, label) \<in> set available"
      by (rule scan_targets_sound)
    with av ts show ?thesis
      using collect_available_sound [of candidates available element label] by auto
  next
    case False
    then have no: "target_texts = None \<or> target_texts = Some []"
      by (cases target_texts; cases "the target_texts") auto
    with assms av
    have "find (\<lambda>(element, label). label \<notin> visited) available = Some (element, label)"
      by (auto simp: pick_next_link_def split: if_splits)
    then have "label \<notin> visited \<and> (element, label) \<in> set available"
      by (rule find_unvisited_sound)
    with av no show ?thesis
      using collect_available_sound [of candidates available element label] by auto
  qed
qed

theorem pick_next_link_sound_witness:
  "pick_next_link [text_link 2 ''X'', text_link 3 ''Y''] {''X''} (Some [''X'', ''Y''])
     = Inr (Some (text_link 3 ''Y'', ''Y''))
   \<and> ''Y'' \<notin> {''X''} \<and> ''Y'' \<in> set [''X'', ''Y'']"
proof -
  have run: "pick_next_link [text_link 2 ''X'', text_link 3 ''Y''] {''X''} (Some [''X'', ''Y''])
     = Inr (Some (text_link 3 ''Y'', ''Y''))"
    by (simp add: pick_next_link_def extract_label_def text_link_def strip_def isspace_def)
  from pick_next_link_sound [OF run] run show ?thesis by simp
qed

text \<open>
  Claim C3. Without a target list, the selector returns the first candidate in discovery
  order whose label is not visited, candidates whose extraction fails (the element is
  stale) being dropped; it returns "none remain" exactly when the label of every
  remaining candidate is visited. With candidates labelled \<open>X\<close> and \<open>Y\<close> in that order
  and \<open>X\<close> visited, it returns the candidate \<open>Y\<close> with the label \<open>Y\<close>.
\<close>

theorem pick_next_link_discovery_order:
  assumes "stale_only candidates"
  shows "pick_next_link candidates visited None
           = Inr (find (\<lambda>(element, label). label \<notin> visited) (labelled candidates))
         \<and> (pick_next_link candidates visited None = Inr None
              \<longleftrightarrow> (\<forall>(element, label) \<in> set (labelled candidates). label \<in> visited))
         \<and> (\<forall>x y. extract_label x = Inr ''X'' \<and> extract_label y = Inr ''Y''
              \<longrightarrow> pick_next_link [x, y] {''X''} None = Inr (Some (y, ''Y'')))"
proof -
  have av: "collect_available candidates = Inr (labelled candidates)"
    using assms by (rule collect_available_labelled)
  have first: "pick_next_link candidates visited None
           = Inr (find (\<lambda>(element, label). label \<notin> visited) (labelled candidates))"
    by (simp add: pick_next_link_def av)
  have none: "pick_next_link candidates visited None = Inr None
              \<longleftrightarrow> (\<forall>(element, label) \<in> set (labelled candidates). label \<in> visited)"
    unfolding first by (auto simp: find_None_iff)
  have example: "\<forall>x y. extract_label x = Inr ''X'' \<and> extract_label y = Inr ''Y''
              \<longrightarrow> pick_next_link [x, y] {''X''} None = Inr (Some (y, ''Y''))"
    by (simp add: pick_next_link_def)
  from first none example show ?thesis by blast
qed

theorem pick_next_link_discovery_order_witness:
  "stale_only [text_link 2 ''X'', text_link 3 ''Y'']
   \<and> pick_next_link [text_link 2 ''X'', text_link 3 ''Y''] {''X''} None
       = Inr (Some (text_link 3 ''Y'', ''Y''))
   \<and> pick_next_link [text_link 2 ''X'', text_link 3 ''Y''] {''X'', ''Y''} None = Inr None"
proof -
  have ok: "stale_only [text_link 2 ''X'', text_link 3 ''Y'']"
    by (simp add: stale_only_def extract_label_def text_link_def strip_def isspace_def)
  have lab: "labelled [text_link 2 ''X'', text_link 3 ''Y'']
               = [(text_link 2 ''X'', ''X''), (text_link 3 ''Y'', ''Y'')]"
    by (simp add: labelled_def extract_label_def text_link_def strip_def isspace_def)
  from pick_next_link_discovery_order [OF ok, of "{''X''}"]
       pick_next_link_discovery_order [OF ok, of "{''X'', ''Y''}"] ok
  show ?thesis by (simp add: lab)
qed

section \<open>Properties of the click executor\<close>

text \<open>
  Claim C6. The click executor scrolls the element into view first; an exception of the
  scroll leaves the function before any click. After the scroll it attempts the native
  click; when that succeeds nothing else is done, and when it raises, whatever the
  exception, the script click runs on the same element and its outcome alone is the
  outcome of the call: the exception of the native click never reaches the caller.
\<close>

theorem click_element_fallback:
  "(\<exists>rest. trace (snd (click_element driver w element label))
             = trace w @ ScrollIntoView element # rest)
   \<and> (\<forall>err. execute_scroll driver w element = Some err \<longrightarrow>
         click_element driver w element label = (Inl err, record_action (ScrollIntoView element) w))
   \<and> (execute_scroll driver w element = None \<longrightarrow>
        (element_click driver (record_action (ScrollIntoView element) w) element = None \<longrightarrow>
           click_element driver w element label
             = (Inr (), w\<lparr>trace := trace w @ [ScrollIntoView element, Click element]\<rparr>))
        \<and> (\<forall>caught. element_click driver (record_action (ScrollIntoView element) w) element = Some caught \<longrightarrow>
             click_element driver w element label
               = (case execute_click driver (record_action (Click element) (record_action (ScrollIntoView element) w))
                        element of
                    None \<Rightarrow> Inr ()
                  | Some err \<Rightarrow> Inl err,
                  w\<lparr>trace := trace w @ [ScrollIntoView element, Click element,
                                         ScriptClick element]\<rparr>)))"
proof -
  let ?w1 = "record_action (ScrollIntoView element) w"
  let ?w2 = "record_action (Click element) ?w1"
  have scroll_fails: "click_element driver w element label = (Inl err, ?w1)"
    if "execute_scroll driver w element = Some err" for err
    using that by (simp add: click_element_def)
  have native_ok: "click_element driver w element label
                     = (Inr (), w\<lparr>trace := trace w @ [ScrollIntoView element, Click element]\<rparr>)"
    if "execute_scroll driver w element = None" and "element_click driver ?w1 element = None"
    using that by (simp add: click_element_def record_action_def)
  have fallback: "click_element driver w element label
                    = (case execute_click driver ?w2 element of
                         None \<Rightarrow> Inr ()
                       | Some err \<Rightarrow> Inl err,
                       w\<lparr>trace := trace w @ [ScrollIntoView element, Click element,
                                              ScriptClick element]\<rparr>)"
    if "execute_scroll driver w element = None" and "element_click driver ?w1 element = Some caught"
    for caught
    using that by (simp add: click_element_def record_action_def split: option.splits)
  have starts: "\<exists>rest. trace (snd (click_element driver w element label))
                         = trace w @ ScrollIntoView element # rest"
  proof (cases "execute_scroll driver w element")
    case (Some err)
    then show ?thesis by (simp add: scroll_fails record_action_def)
  next
    case None
    show ?thesis
    proof (cases "element_click driver ?w1 element")
      case no_error: None
      show ?thesis by (simp add: native_ok [OF None no_error])
    next
      case (Some caught)
      show ?thesis by (simp add: fallback [OF None Some])
    qed
  qed
  from starts scroll_fails native_ok fallback show ?thesis by blast
qed

theorem click_element_fallback_witness:
  "click_element
     ((stub_browser [] (Inl TimeoutException))
        \<lparr>element_click := (\<lambda>w element. Some StaleElementReferenceException)\<rparr>)
     \<lparr>clock = 0, trace = []\<rparr> (text_link 2 ''L1'') ''L1''
   = (Inr (), \<lparr>clock = 0, trace = [ScrollIntoView (text_link 2 ''L1''), Click (text_link 2 ''L1''),
                                    ScriptClick (text_link 2 ''L1'')]\<rparr>)
   \<and> click_element
     ((stub_browser [] (Inl TimeoutException))
        \<lparr>element_click := (\<lambda>w element. Some StaleElementReferenceException),
         execute_click := (\<lambda>w element. Some WebDriverException)\<rparr>)
     \<lparr>clock = 0, trace = []\<rparr> (text_link 2 ''L1'') ''L1''
   = (Inl WebDriverException,
      \<lparr>clock = 0, trace = [ScrollIntoView (text_link 2 ''L1''), Click (text_link 2 ''L1''),
                            ScriptClick (text_link 2 ''L1'')]\<rparr>)
   \<and> click_element (stub_browser [] (Inl TimeoutException))
     \<lparr>clock = 0, trace = []\<rparr> (text_link 2 ''L1'') ''L1''
   = (Inr (), \<lparr>clock = 0, trace = [ScrollIntoView (text_link 2 ''L1''), Click (text_link 2 ''L1'')]\<rparr>)"
  using click_element_fallback [of "(stub_browser [] (Inl TimeoutException))
        \<lparr>element_click := (\<lambda>w element. Some StaleElementReferenceException)\<rparr>"
        "\<lparr>clock = 0, trace = []\<rparr>" "text_link 2 ''L1''" "''L1''"]
      click_element_fallback [of "(stub_browser [] (Inl TimeoutException))
        \<lparr>element_click := (\<lambda>w element. Some StaleElementReferenceException),
         execute_click := (\<lambda>w element. Some WebDriverException)\<rparr>"
        "\<lparr>clock = 0, trace = []\<rparr>" "text_link 2 ''L1''" "''L1''"]
      click_element_fallback [of "stub_browser [] (Inl TimeoutException)"
        "\<lparr>clock = 0, trace = []\<rparr>" "text_link 2 ''L1''" "''L1''"]
  by (simp add: stub_browser_def)

section \<open>Properties of the export trigger\<close>

lemma map_by_keys: "fst ` set mapping = set locator_spellings"
  by (simp add: mapping_def locator_spellings_def)

lemma map_by_accepts: "(\<exists>kind. map_by by_value = Inr kind) \<longleftrightarrow> by_value \<in> set locator_spellings"
proof -
  have "(\<exists>kind. map_by by_value = Inr kind) \<longleftrightarrow> map_of mapping by_value \<noteq> None"
    by (auto simp: map_by_def split: option.splits)
  also have "\<dots> \<longleftrightarrow> by_value \<in> fst ` set mapping"
    by (simp add: map_of_eq_None_iff)
  finally show ?thesis
    by (simp only: map_by_keys)
qed

lemma map_by_rejects:
  "by_value \<notin> set locator_spellings \<Longrightarrow>
     map_by by_value = Inl (ValueError (''Unsupported locator type: '' @ by_value))"
  unfolding map_by_keys [symmetric]
  by (simp add: map_by_def map_of_eq_None_iff [symmetric])

lemma map_by_onto: "\<exists>by_value. map_by by_value = Inr kind"
proof (cases kind)
  case CSS_SELECTOR
  have "map_by ''css'' = Inr CSS_SELECTOR" by (simp add: map_by_def mapping_def)
  with CSS_SELECTOR show ?thesis by blast
next
  case XPATH
  have "map_by ''xpath'' = Inr XPATH" by (simp add: map_by_def mapping_def)
  with XPATH show ?thesis by blast
next
  case ID
  have "map_by ''id'' = Inr ID" by (simp add: map_by_def mapping_def)
  with ID show ?thesis by blast
next
  case NAME
  have "map_by ''name'' = Inr NAME" by (simp add: map_by_def mapping_def)
  with NAME show ?thesis by blast
next
  case CLASS_NAME
  have "map_by ''class'' = Inr CLASS_NAME" by (simp add: map_by_def mapping_def)
  with CLASS_NAME show ?thesis by blast
next
  case TAG_NAME
  have "map_by ''tag'' = Inr TAG_NAME" by (simp add: map_by_def mapping_def)
  with TAG_NAME show ?thesis by blast
next
  case LINK_TEXT
  have "map_by ''link_text'' = Inr LINK_TEXT" by (simp add: map_by_def mapping_def)
  with LINK_TEXT show ?thesis by blast
next
  case PARTIAL_LINK_TEXT
  have "map_by ''partial_link_text'' = Inr PARTIAL_LINK_TEXT" by (simp add: map_by_def mapping_def)
  with PARTIAL_LINK_TEXT show ?thesis by blast
qed

text \<open>
  Claim C8, as amended. \<open>map_by\<close> succeeds for exactly eleven spellings (\<open>css\<close>,
  \<open>css_selector\<close>, \<open>xpath\<close>, \<open>id\<close>, \<open>name\<close>, \<open>class\<close>, \<open>class_name\<close>, \<open>tag\<close>,
  \<open>tag_name\<close>, \<open>link_text\<close>, \<open>partial_link_text\<close>), which between them name each of the
  eight locator kinds, and raises the unsupported-locator error for every other string.
  In the export trigger the configured kind is lower-cased first, and an error of the
  mapping leaves the trigger before any wait or click is attempted.
\<close>

theorem map_by_supported:
  "((\<exists>kind. map_by by_value = Inr kind) \<longleftrightarrow> by_value \<in> set locator_spellings)
   \<and> (by_value \<notin> set locator_spellings \<longrightarrow>
        map_by by_value = Inl (ValueError (''Unsupported locator type: '' @ by_value)))
   \<and> (\<forall>kind. \<exists>spelling \<in> set locator_spellings. map_by spelling = Inr kind)
   \<and> (\<forall>err. map_by (lower (case locator_config ''by'' of None \<Rightarrow> ''css'' | Some b \<Rightarrow> b)) = Inl err
        \<longrightarrow> (\<exists>raised. trigger_export driver w locator_config timeout link_label = (Inl raised, w)))
   \<and> (\<forall>val. locator_config ''value'' = Some val
          \<and> lower (case locator_config ''by'' of None \<Rightarrow> ''css'' | Some b \<Rightarrow> b)
               \<notin> set locator_spellings
        \<longrightarrow> trigger_export driver w locator_config timeout link_label
              = (Inl (ValueError (''Unsupported locator type: ''
                   @ lower (case locator_config ''by'' of None \<Rightarrow> ''css'' | Some b \<Rightarrow> b))), w))"
proof -
  have onto: "\<forall>kind. \<exists>spelling \<in> set locator_spellings. map_by spelling = Inr kind"
    using map_by_onto map_by_accepts by blast
  have early: "\<forall>err. map_by (lower (case locator_config ''by'' of None \<Rightarrow> ''css'' | Some b \<Rightarrow> b)) = Inl err
        \<longrightarrow> (\<exists>raised. trigger_export driver w locator_config timeout link_label = (Inl raised, w))"
    by (auto simp: trigger_export_def Let_def split: option.splits)
  have unsupported: "\<forall>val. locator_config ''value'' = Some val
          \<and> lower (case locator_config ''by'' of None \<Rightarrow> ''css'' | Some b \<Rightarrow> b)
               \<notin> set locator_spellings
        \<longrightarrow> trigger_export driver w locator_config timeout link_label
              = (Inl (ValueError (''Unsupported locator type: ''
                   @ lower (case locator_config ''by'' of None \<Rightarrow> ''css'' | Some b \<Rightarrow> b))), w)"
    by (auto simp: trigger_export_def Let_def map_by_rejects)
  from map_by_accepts map_by_rejects onto early unsupported show ?thesis by blast
qed

theorem map_by_supported_witness:
  "map_by ''class_name'' = Inr CLASS_NAME
   \<and> ''class_name'' \<in> set locator_spellings
   \<and> ''link text'' \<notin> set locator_spellings
   \<and> map_by ''link text'' = Inl (ValueError ''Unsupported locator type: link text'')
   \<and> trigger_export (stub_browser [] (Inr (text_link 9 ''Export'')))
        \<lparr>clock = 0, trace = []\<rparr> [''by'' \<mapsto> ''Link Text'', ''value'' \<mapsto> ''Export''] 30 ''L1''
      = (Inl (ValueError ''Unsupported locator type: link text''), \<lparr>clock = 0, trace = []\<rparr>)"
  using map_by_supported [of "''class_name''" "[''by'' \<mapsto> ''Link Text'', ''value'' \<mapsto> ''Export'']"
          "stub_browser [] (Inr (text_link 9 ''Export''))" "\<lparr>clock = 0, trace = []\<rparr>" 30 "''L1''"]
        map_by_supported [of "''link text''" "[''by'' \<mapsto> ''Link Text'', ''value'' \<mapsto> ''Export'']"
          "stub_browser [] (Inr (text_link 9 ''Export''))" "\<lparr>clock = 0, trace = []\<rparr>" 30 "''L1''"]
  by (simp add: locator_spellings_def map_by_def mapping_def lower_def lower_char_def char_of_eq_iff)

text \<open>
  The claim as the specification states it fails: the kind names with a space, such as
  \<open>css selector\<close> and \<open>class name\<close>, are rejected, while \<open>css\<close>, which is not one of the
  eight names, is accepted.
\<close>

theorem map_by_kind_names_rejected:
  "map_by ''css selector'' = Inl (ValueError ''Unsupported locator type: css selector'')
   \<and> map_by ''class name'' = Inl (ValueError ''Unsupported locator type: class name'')
   \<and> map_by ''css'' = Inr CSS_SELECTOR"
  by (simp add: map_by_def mapping_def)

section \<open>Properties of the rounding\<close>

lemma scale_pos: "0 < scale"
  by (simp add: scale_def)



lemma level_lower: "j \<le> i \<Longrightarrow> i < level n j a \<Longrightarrow> 2 ^ i \<le> a * scale"
proof (induction n arbitrary: j)
  case 0
  then show ?case by simp
next
  case (Suc n)
  show ?case
  proof (cases "a * scale < 2 ^ j")
    case True
    with Suc.prems show ?thesis by simp
  next
    case False
    show ?thesis
    proof (cases "i = j")
      case True
      with False show ?thesis by simp
    next
      case ne: False
      with Suc.prems False have "Suc j \<le> i" "i < level n (Suc j) a" by auto
      then show ?thesis by (rule Suc.IH)
    qed
  qed
qed



lemma rank_lower: "i < rank a \<Longrightarrow> 2 ^ i \<le> a * scale"
  using level_lower [of 0 i 2045 a] by (simp add: rank_def)





lemma half_even_of_int: "half_even (of_int n) = n"
  by (simp add: half_even_def)



lemma half_even_error: "\<bar>of_int (half_even y) - y\<bar> \<le> 1 / 2"
proof -
  have "of_int \<lfloor>y\<rfloor> \<le> y" "y < of_int \<lfloor>y\<rfloor> + 1" by linarith+
  then show ?thesis
    by (auto simp: half_even_def Let_def abs_le_iff)
qed



lemma ulp_pos: "0 < ulp x"
  using scale_pos by (simp add: ulp_def)

lemma ulp_abs: "ulp \<bar>x\<bar> = ulp x"
  by (simp add: ulp_def)

lemma ulp_minus: "ulp (- x) = ulp x"
  by (simp add: ulp_def)










lemma round_magnitude_error:
  assumes "0 \<le> a"
  shows "\<bar>round_magnitude a - a\<bar> \<le> ulp a / 2"
proof -
  have "\<bar>of_int (half_even (a / ulp a)) - a / ulp a\<bar> \<le> 1 / 2" by (rule half_even_error)
  then have "ulp a * \<bar>of_int (half_even (a / ulp a)) - a / ulp a\<bar> \<le> ulp a * (1 / 2)"
    using ulp_pos [of a] by (simp only: mult_le_cancel_left_pos)
  moreover have "ulp a * \<bar>of_int (half_even (a / ulp a)) - a / ulp a\<bar>
                   = \<bar>ulp a * of_int (half_even (a / ulp a)) - a\<bar>"
  proof -
    have "ulp a * of_int (half_even (a / ulp a)) - a
            = ulp a * (of_int (half_even (a / ulp a)) - a / ulp a)"
      using ulp_pos [of a] by (simp add: right_diff_distrib)
    then show ?thesis using ulp_pos [of a] by (simp add: abs_mult)
  qed
  ultimately show ?thesis by (simp add: round_magnitude_def)
qed

lemma round_magnitude_0: "round_magnitude 0 = 0"
  by (simp add: round_magnitude_def half_even_of_int [of 0, simplified])

lemma round_double_nonneg: "0 \<le> x \<Longrightarrow> round_double x = round_magnitude x"
  by (cases "x = 0") (simp_all add: round_double_def round_magnitude_0)

lemma round_double_minus: "round_double (- x) = - round_double x"
  by (simp add: round_double_def sgn_minus)




lemma round_double_error: "\<bar>round_double x - x\<bar> \<le> ulp x / 2"
proof (cases "0 \<le> x")
  case True
  with round_magnitude_error [of x] show ?thesis by (simp add: round_double_nonneg)
next
  case False
  then have x: "round_double x = - round_magnitude (- x)"
    using round_double_nonneg [of "- x"] by (simp add: round_double_minus)
  have "\<bar>round_magnitude (- x) - (- x)\<bar> \<le> ulp (- x) / 2"
    using False by (intro round_magnitude_error) simp
  moreover have "round_double x - x = - (round_magnitude (- x) - (- x))"
    by (simp add: x)
  ultimately show ?thesis by (simp only: abs_minus_cancel ulp_minus)
qed



lemma round_double_half:
  assumes "1 \<le> x"
  shows "x / 2 \<le> round_double x"
proof -
  have "ulp x \<le> x"
  proof (cases "rank \<bar>x\<bar>")
    case 0
    then have "ulp x = 1 / (scale * 2 ^ 53)" by (simp add: ulp_def)
    also have "\<dots> \<le> 1" by (simp add: scale_def)
    finally show ?thesis using assms by simp
  next
    case (Suc k)
    then have "k < rank \<bar>x\<bar>" by simp
    then have "2 ^ k \<le> \<bar>x\<bar> * scale" by (rule rank_lower)
    then have "2 ^ Suc k \<le> 2 * x * scale" using assms by simp
    then have "2 ^ Suc k / (scale * 2 ^ 53) \<le> 2 * x * scale / (scale * 2 ^ 53)"
      by (intro divide_right_mono) (use scale_pos in auto)
    also have "\<dots> = x / 2 ^ 52" using scale_pos by simp
    also have "\<dots> \<le> x" using assms by (simp add: field_simps)
    finally show ?thesis by (simp add: ulp_def Suc)
  qed
  with round_double_error [of x] show ?thesis by linarith
qed

section \<open>Properties of the download waiter\<close>

termination wait_loop
proof (relation "measure (\<lambda>(target_dir, limit, w). nat \<lceil>2 * \<bar>limit\<bar> + 1 - clock w\<rceil>)")
  show "wf (measure (\<lambda>(target_dir, limit, w). nat \<lceil>2 * \<bar>limit\<bar> + 1 - clock w\<rceil>))"
    by simp
next
  fix target_dir :: directory and limit :: real and w :: world
  assume before: "time_time w < limit"
  have "clock w < 2 * \<bar>limit\<bar> + 1"
  proof (rule ccontr)
    assume "\<not> clock w < 2 * \<bar>limit\<bar> + 1"
    then have late: "2 * \<bar>limit\<bar> + 1 \<le> clock w" by simp
    then have "1 \<le> clock w" by simp
    then have "clock w / 2 \<le> round_double (clock w)" by (rule round_double_half)
    with late have "limit \<le> round_double (clock w)" by simp
    with before show False by (simp add: time_time_def)
  qed
  then show "((target_dir, limit, sleep 1 (record_action Glob w)), (target_dir, limit, w))
               \<in> measure (\<lambda>(target_dir, limit, w). nat \<lceil>2 * \<bar>limit\<bar> + 1 - clock w\<rceil>)"
    by (simp add: sleep_def record_action_def) linarith
qed

declare wait_loop.simps [simp del]
















section \<open>Properties of the target list\<close>

lemma list_all_dropWhile: "list_all P (dropWhile P xs) \<longleftrightarrow> list_all P xs"
  by (induction xs) auto

lemma strip_Nil_iff: "strip s = [] \<longleftrightarrow> blank s"
proof -
  have "strip s = [] \<longleftrightarrow> list_all isspace (dropWhile isspace s)"
    by (simp add: strip_def list_all_iff)
  then show ?thesis
    by (simp only: list_all_dropWhile blank_def)
qed

lemma strip_split:
  "dropWhile isspace s = strip s @ rev (takeWhile isspace (rev (dropWhile isspace s)))"
proof -
  let ?u = "dropWhile isspace s"
  have "rev (takeWhile isspace (rev ?u) @ dropWhile isspace (rev ?u)) = rev (rev ?u)"
    by (simp only: takeWhile_dropWhile_id)
  then show ?thesis
    by (simp only: rev_append rev_rev_ident strip_def)
qed

lemma strip_ends:
  assumes "strip s \<noteq> []"
  shows "\<not> isspace (hd (strip s)) \<and> \<not> isspace (last (strip s))"
proof -
  let ?u = "dropWhile isspace s"
  let ?v = "dropWhile isspace (rev ?u)"
  have sv: "strip s = rev ?v" by (simp only: strip_def)
  have v: "?v \<noteq> []" using assms unfolding sv by (simp del: dropWhile_eq_Nil_conv)
  have "last (strip s) = hd ?v" unfolding sv using v by (simp only: last_rev)
  moreover have "\<not> isspace (hd ?v)" using v by (rule hd_dropWhile)
  moreover have "hd (strip s @ rev (takeWhile isspace (rev ?u))) = hd (strip s)"
    using assms by (rule hd_append2)
  then have "hd ?u = hd (strip s)" by (simp only: strip_split [symmetric])
  moreover have "?u \<noteq> []"
  proof
    assume "?u = []"
    then show False using assms strip_split [of s] by (metis append_is_Nil_conv)
  qed
  then have "\<not> isspace (hd ?u)" by (rule hd_dropWhile)
  ultimately show ?thesis by simp
qed

lemma strip_decomposition: "\<exists>pre post. s = pre @ strip s @ post \<and> blank pre \<and> blank post"
proof -
  let ?u = "dropWhile isspace s"
  let ?t = "takeWhile isspace (rev ?u)"
  have "takeWhile isspace s @ ?u = s" by (rule takeWhile_dropWhile_id)
  then have "s = takeWhile isspace s @ strip s @ rev ?t"
    by (simp only: strip_split [symmetric])
  moreover have "blank (takeWhile isspace s)"
    by (auto simp: blank_def list_all_iff dest: set_takeWhileD)
  moreover have "blank (rev ?t)"
    by (auto simp: blank_def list_all_iff dest: set_takeWhileD)
  ultimately show ?thesis by blast
qed

lemma finish_link_targets:
  "finish_link driver download_dir (config\<lparr>link_text_targets := raw\<rparr>) label w
     = finish_link driver download_dir config label w"
  by (simp add: finish_link_def Let_def split: prod.splits sum.splits option.splits)

lemma loop_body_targets:
  "loop_body driver download_dir (config\<lparr>link_text_targets := raw\<rparr>) target_texts state
     = loop_body driver download_dir config target_texts state"
  by (simp add: loop_body_def finish_link_targets split: prod.splits sum.splits option.splits)

lemma run_loop_targets:
  "run_loop fuel driver download_dir (config\<lparr>link_text_targets := raw\<rparr>) target_texts state
     = run_loop fuel driver download_dir config target_texts state"
  by (induction fuel arbitrary: state)
     (simp_all add: loop_body_targets split: prod.splits outcome.splits)

lemma run_automation_targets:
  "normalize_target_texts x = normalize_target_texts y \<Longrightarrow>
     run_automation fuel driver download_dir (config\<lparr>link_text_targets := x\<rparr>) w
       = run_automation fuel driver download_dir (config\<lparr>link_text_targets := y\<rparr>) w"
  by (simp add: run_automation_def run_loop_targets Let_def
        cong: option.case_cong prod.case_cong sum.case_cong)

lemma normalize_Some:
  "normalize_target_texts raw = Some targets \<Longrightarrow>
     \<exists>items. raw = Some items \<and> targets \<noteq> []
        \<and> targets = map strip (filter (\<lambda>s. \<not> blank s) (map str items))"
  by (auto simp: normalize_target_texts_def Let_def strip_Nil_iff filter_map comp_def
           split: option.splits list.splits if_splits)

lemma normalize_None_iff:
  "normalize_target_texts raw = None \<longleftrightarrow>
     (raw = None \<or> (\<exists>items. raw = Some items \<and> (\<forall>item \<in> set items. blank (str item))))"
  by (auto simp: normalize_target_texts_def Let_def strip_Nil_iff filter_empty_conv
           split: option.splits list.splits if_splits)

text \<open>
  Claim C9. Normalisation keeps the entries that are not blank, each with the whitespace
  around it removed (\<open>strip\<close> cuts a blank prefix and a blank suffix, and what is left
  of a kept entry starts and ends with a character that is not whitespace), and drops the
  blank ones. It yields no target list exactly when none was configured or every entry is
  blank, the empty list included; the selector and the whole run then behave as without a
  target list.
\<close>

theorem normalize_target_texts_blank:
  "(\<forall>targets. normalize_target_texts raw = Some targets \<longrightarrow>
       (\<exists>items. raw = Some items \<and> targets \<noteq> []
          \<and> targets = map strip (filter (\<lambda>s. \<not> blank s) (map str items)))
       \<and> (\<forall>t \<in> set targets. t \<noteq> [] \<and> \<not> isspace (hd t) \<and> \<not> isspace (last t)))
   \<and> (\<exists>pre post. s = pre @ strip s @ post \<and> blank pre \<and> blank post)
   \<and> (normalize_target_texts raw = None \<longleftrightarrow>
        (raw = None \<or> (\<exists>items. raw = Some items \<and> (\<forall>item \<in> set items. blank (str item)))))
   \<and> (raw = None \<or> (\<exists>items. raw = Some items \<and> (\<forall>item \<in> set items. blank (str item))) \<longrightarrow>
        pick_next_link candidates visited (normalize_target_texts raw)
          = pick_next_link candidates visited None
        \<and> run_automation fuel driver download_dir (config\<lparr>link_text_targets := raw\<rparr>) w
          = run_automation fuel driver download_dir (config\<lparr>link_text_targets := None\<rparr>) w)"
proof -
  have entries: "\<forall>targets. normalize_target_texts raw = Some targets \<longrightarrow>
       (\<exists>items. raw = Some items \<and> targets \<noteq> []
          \<and> targets = map strip (filter (\<lambda>s. \<not> blank s) (map str items)))
       \<and> (\<forall>t \<in> set targets. t \<noteq> [] \<and> \<not> isspace (hd t) \<and> \<not> isspace (last t))"
  proof (intro allI impI conjI)
    fix targets assume n: "normalize_target_texts raw = Some targets"
    then show "\<exists>items. raw = Some items \<and> targets \<noteq> []
          \<and> targets = map strip (filter (\<lambda>s. \<not> blank s) (map str items))"
      by (rule normalize_Some)
    then obtain items where t: "targets = map strip (filter (\<lambda>s. \<not> blank s) (map str items))"
      by blast
    show "\<forall>t \<in> set targets. t \<noteq> [] \<and> \<not> isspace (hd t) \<and> \<not> isspace (last t)"
    proof
      fix x assume "x \<in> set targets"
      then obtain s where "x = strip s" "\<not> blank s" using t by auto
      then show "x \<noteq> [] \<and> \<not> isspace (hd x) \<and> \<not> isspace (last x)"
        using strip_ends [of s] by (simp add: strip_Nil_iff)
    qed
  qed
  have same: "raw = None \<or> (\<exists>items. raw = Some items \<and> (\<forall>item \<in> set items. blank (str item))) \<longrightarrow>
        pick_next_link candidates visited (normalize_target_texts raw)
          = pick_next_link candidates visited None
        \<and> run_automation fuel driver download_dir (config\<lparr>link_text_targets := raw\<rparr>) w
          = run_automation fuel driver download_dir (config\<lparr>link_text_targets := None\<rparr>) w"
  proof
    assume "raw = None \<or> (\<exists>items. raw = Some items \<and> (\<forall>item \<in> set items. blank (str item)))"
    then have n: "normalize_target_texts raw = None" by (simp only: normalize_None_iff)
    have n0: "normalize_target_texts None = None" by (simp add: normalize_target_texts_def)
    have r: "run_automation fuel driver download_dir (config\<lparr>link_text_targets := raw\<rparr>) w
          = run_automation fuel driver download_dir (config\<lparr>link_text_targets := None\<rparr>) w"
      by (rule run_automation_targets) (simp only: n n0)
    show "pick_next_link candidates visited (normalize_target_texts raw)
          = pick_next_link candidates visited None
        \<and> run_automation fuel driver download_dir (config\<lparr>link_text_targets := raw\<rparr>) w
          = run_automation fuel driver download_dir (config\<lparr>link_text_targets := None\<rparr>) w"
      by (simp only: n r)
  qed
  show ?thesis
    by (rule conjI [OF entries conjI [OF strip_decomposition conjI [OF normalize_None_iff same]]])
qed

theorem normalize_target_texts_blank_witness:
  "normalize_target_texts (Some [JString ''  A '', JString ''   '', JInt 7]) = Some [''A'', ''7'']
   \<and> ''A'' \<noteq> [] \<and> \<not> isspace (hd ''A'') \<and> \<not> isspace (last ''A'')
   \<and> blank (str (JString '' '')) \<and> blank (str (JString []))
   \<and> normalize_target_texts (Some [JString '' '', JString []]) = None
   \<and> pick_next_link [text_link 2 ''X'', text_link 3 ''Y''] {''X''}
        (normalize_target_texts (Some [JString '' '', JString []]))
      = pick_next_link [text_link 2 ''X'', text_link 3 ''Y''] {''X''} None"
proof -
  have a: "normalize_target_texts (Some [JString ''  A '', JString ''   '', JInt 7])
             = Some [''A'', ''7'']"
    by (simp add: normalize_target_texts_def strip_def isspace_def str_int_def
          str_nat.simps digit_char_def)
  have b: "\<forall>item \<in> set [JString '' '', JString []]. blank (str item)"
    by (simp add: blank_def isspace_def)
  note first = normalize_target_texts_blank
      [of "Some [JString ''  A '', JString ''   '', JInt 7]", THEN conjunct1, rule_format, OF a]
  note second = normalize_target_texts_blank
      [of "Some [JString '' '', JString []]" _ "[text_link 2 ''X'', text_link 3 ''Y'']" "{''X''}"]
  from first have "''A'' \<noteq> [] \<and> \<not> isspace (hd ''A'') \<and> \<not> isspace (last ''A'')"
    by simp
  moreover from second b
  have "normalize_target_texts (Some [JString '' '', JString []]) = None
        \<and> pick_next_link [text_link 2 ''X'', text_link 3 ''Y''] {''X''}
            (normalize_target_texts (Some [JString '' '', JString []]))
          = pick_next_link [text_link 2 ''X'', text_link 3 ''Y''] {''X''} None"
    by blast
  moreover have "blank (str (JString '' '')) \<and> blank (str (JString []))"
    using b by simp
  ultimately show ?thesis using a by blast
qed

section \<open>Properties of the traversal loop\<close>

lemma loop_body_grows:
  "loop_body driver download_dir config target_texts (visited, w) = (out, visited', w') \<Longrightarrow>
     visited \<subseteq> visited'"
  by (auto simp: loop_body_def split: prod.splits sum.splits option.splits)

lemma run_loop_grows:
  "run_loop fuel driver download_dir config target_texts (visited, w) = (out, visited', w') \<Longrightarrow>
     visited \<subseteq> visited'"
proof (induction fuel arbitrary: visited w)
  case 0
  then show ?case by simp
next
  case (Suc fuel)
  obtain o1 v1 w1 where
    body: "loop_body driver download_dir config target_texts (visited, w) = (o1, v1, w1)"
    by (cases "loop_body driver download_dir config target_texts (visited, w)") auto
  then have step: "visited \<subseteq> v1" by (rule loop_body_grows)
  show ?case
  proof (cases "o1 = Running")
    case True
    with Suc.prems body
    have "run_loop fuel driver download_dir config target_texts (v1, w1) = (out, visited', w')"
      by simp
    then have "v1 \<subseteq> visited'" by (rule Suc.IH)
    with step show ?thesis by blast
  next
    case False
    with Suc.prems body have "visited' = v1" by (cases o1) auto
    with step show ?thesis by simp
  qed
qed

text \<open>
  Claim C5. In a pass of the loop in which a link is selected and the click succeeds, the
  label is in the visited set from then on, whatever the content wait, the export and the
  download wait do afterwards, a fatal failure included; when the click fails the set is
  unchanged. No pass, and so no run of any number of passes, removes a label from the
  visited set.
\<close>

theorem visited_labels_added_after_click:
  "(\<forall>links w1 element label w2.
       collect_link_elements driver w (link_items_selector config) = (Inr links, w1)
       \<and> pick_next_link links visited target_texts = Inr (Some (element, label))
       \<and> click_element driver w1 element label = (Inr (), w2)
     \<longrightarrow> loop_body driver download_dir config target_texts (visited, w)
           = (fst (finish_link driver download_dir config label w2), insert label visited,
              snd (finish_link driver download_dir config label w2)))
   \<and> (\<forall>links w1 element label w2 err.
       collect_link_elements driver w (link_items_selector config) = (Inr links, w1)
       \<and> pick_next_link links visited target_texts = Inr (Some (element, label))
       \<and> click_element driver w1 element label = (Inl err, w2)
     \<longrightarrow> loop_body driver download_dir config target_texts (visited, w)
           = (Fatal err, visited, w2))
   \<and> (\<forall>out visited' w'.
       loop_body driver download_dir config target_texts (visited, w) = (out, visited', w')
     \<longrightarrow> visited \<subseteq> visited')
   \<and> (\<forall>fuel out visited' w'.
       run_loop fuel driver download_dir config target_texts (visited, w) = (out, visited', w')
     \<longrightarrow> visited \<subseteq> visited')"
proof -
  have added: "\<forall>links w1 element label w2.
       collect_link_elements driver w (link_items_selector config) = (Inr links, w1)
       \<and> pick_next_link links visited target_texts = Inr (Some (element, label))
       \<and> click_element driver w1 element label = (Inr (), w2)
     \<longrightarrow> loop_body driver download_dir config target_texts (visited, w)
           = (fst (finish_link driver download_dir config label w2), insert label visited,
              snd (finish_link driver download_dir config label w2))"
    by (simp add: loop_body_def split: prod.splits)
  have not_added: "\<forall>links w1 element label w2 err.
       collect_link_elements driver w (link_items_selector config) = (Inr links, w1)
       \<and> pick_next_link links visited target_texts = Inr (Some (element, label))
       \<and> click_element driver w1 element label = (Inl err, w2)
     \<longrightarrow> loop_body driver download_dir config target_texts (visited, w)
           = (Fatal err, visited, w2)"
    by (simp add: loop_body_def)
  have grows: "\<forall>out visited' w'.
       loop_body driver download_dir config target_texts (visited, w) = (out, visited', w')
     \<longrightarrow> visited \<subseteq> visited'"
    using loop_body_grows by blast
  have run_grows: "\<forall>fuel out visited' w'.
       run_loop fuel driver download_dir config target_texts (visited, w) = (out, visited', w')
     \<longrightarrow> visited \<subseteq> visited'"
    using run_loop_grows by blast
  show ?thesis
    by (rule conjI [OF added conjI [OF not_added conjI [OF grows run_grows]]])
qed

theorem visited_labels_added_after_click_witness:
  "loop_body (stub_browser [text_link 2 ''L1''] (Inl TimeoutException)) (\<lambda>t. []) plain_config None
     ({}, \<lparr>clock = 0, trace = []\<rparr>)
   = (Fatal TimeoutException, {''L1''},
      \<lparr>clock = 0, trace = [FindElements ''a.item'', ScrollIntoView (text_link 2 ''L1''),
                            Click (text_link 2 ''L1''), WaitClickable CSS_SELECTOR ''#export'' 30]\<rparr>)
   \<and> run_loop 3 (stub_browser [text_link 2 ''L1''] (Inl TimeoutException)) (\<lambda>t. []) plain_config None
     ({}, \<lparr>clock = 0, trace = []\<rparr>)
   = (Fatal TimeoutException, {''L1''},
      \<lparr>clock = 0, trace = [FindElements ''a.item'', ScrollIntoView (text_link 2 ''L1''),
                            Click (text_link 2 ''L1''), WaitClickable CSS_SELECTOR ''#export'' 30]\<rparr>)
   \<and> ''L1'' \<in> {''L1''}"
proof -
  let ?drv = "stub_browser [text_link 2 ''L1''] (Inl TimeoutException)"
  let ?w0 = "\<lparr>clock = 0, trace = []\<rparr>"
  let ?w1 = "\<lparr>clock = 0, trace = [FindElements ''a.item'']\<rparr>"
  let ?w2 = "\<lparr>clock = 0, trace = [FindElements ''a.item'', ScrollIntoView (text_link 2 ''L1''),
                                     Click (text_link 2 ''L1'')]\<rparr>"
  let ?w3 = "\<lparr>clock = 0, trace = [FindElements ''a.item'', ScrollIntoView (text_link 2 ''L1''),
                            Click (text_link 2 ''L1''), WaitClickable CSS_SELECTOR ''#export'' 30]\<rparr>"
  have c: "collect_link_elements ?drv ?w0 (link_items_selector plain_config)
             = (Inr [text_link 2 ''L1''], ?w1)"
    by (simp add: collect_link_elements_def stub_browser_def plain_config_def record_action_def)
  have p: "pick_next_link [text_link 2 ''L1''] {} None = Inr (Some (text_link 2 ''L1'', ''L1''))"
    by (simp add: pick_next_link_def extract_label_def text_link_def strip_def isspace_def)
  have k: "click_element ?drv ?w1 (text_link 2 ''L1'') ''L1'' = (Inr (), ?w2)"
    by (simp add: click_element_def stub_browser_def record_action_def)
  have f: "finish_link ?drv (\<lambda>t. []) plain_config ''L1'' ?w2 = (Fatal TimeoutException, ?w3)"
    by (simp add: finish_link_def trigger_export_def stub_browser_def plain_config_def record_action_def
          get_or_def map_by_def mapping_def lower_def lower_char_def DEFAULT_TIMEOUT_def)
  note inst = visited_labels_added_after_click
               [of ?drv ?w0 plain_config "{}" None "\<lambda>t. []"]
  have body: "loop_body ?drv (\<lambda>t. []) plain_config None ({}, ?w0)
               = (Fatal TimeoutException, {''L1''}, ?w3)"
    using inst [THEN conjunct1, rule_format, OF conjI [OF c conjI [OF p k]]] by (simp add: f)
  have run: "run_loop 3 ?drv (\<lambda>t. []) plain_config None ({}, ?w0)
               = (Fatal TimeoutException, {''L1''}, ?w3)"
    by (simp add: numeral_3_eq_3 body)
  from inst [THEN conjunct2, THEN conjunct2, THEN conjunct2, rule_format, OF run] body run
  show ?thesis by simp
qed

end
